theory Spec2Isabelle
  imports Complex_Main "HOL-Library.Multiset"
begin

section \<open>The PII detection engine (src/core/detection_engine.py)\<close>

text \<open>
  Python strings are modelled as \<^typ>\<open>string\<close> and read as ASCII text: the character
  classes below are Python's \<^verbatim>\<open>str\<close> predicates and the classes of the \<^verbatim>\<open>re\<close>
  module on the code points 0 to 127. A character outside that range belongs to no class
  and is its own upper and lower case. Confidences are Python floats that the engine only
  compares, never computes with; they are modelled as rationals. The wall-clock field
  \<^verbatim>\<open>processing_time\<close> of a detection result is left out.
\<close>

subsection \<open>Characters and strings\<close>

definition is_digit :: "char \<Rightarrow> bool" where
  "is_digit c \<longleftrightarrow> c \<in> set ''0123456789''"

definition is_upper :: "char \<Rightarrow> bool" where
  "is_upper c \<longleftrightarrow> c \<in> set ''ABCDEFGHIJKLMNOPQRSTUVWXYZ''"

definition is_lower :: "char \<Rightarrow> bool" where
  "is_lower c \<longleftrightarrow> c \<in> set ''abcdefghijklmnopqrstuvwxyz''"

text \<open>\<^verbatim>\<open>str.isspace\<close>, also the class \<^verbatim>\<open>\s\<close>: tab, newline, vertical tab, form feed,
  carriage return, the four separators 0x1c to 0x1f, and the space.\<close>

definition is_space :: "char \<Rightarrow> bool" where
  "is_space c \<longleftrightarrow> c \<in> set [CHR 0x09, CHR 0x0A, CHR 0x0B, CHR 0x0C, CHR 0x0D,
                              CHR 0x1C, CHR 0x1D, CHR 0x1E, CHR 0x1F, CHR 0x20]"

text \<open>The class \<^verbatim>\<open>\w\<close>.\<close>

definition is_word :: "char \<Rightarrow> bool" where
  "is_word c \<longleftrightarrow> is_upper c \<or> is_lower c \<or> is_digit c \<or> c = CHR ''_''"

definition to_upper :: "char \<Rightarrow> char" where
  "to_upper c = (case map_of (zip ''abcdefghijklmnopqrstuvwxyz'' ''ABCDEFGHIJKLMNOPQRSTUVWXYZ'') c of
                   Some u \<Rightarrow> u | None \<Rightarrow> c)"

definition to_lower :: "char \<Rightarrow> char" where
  "to_lower c = (case map_of (zip ''ABCDEFGHIJKLMNOPQRSTUVWXYZ'' ''abcdefghijklmnopqrstuvwxyz'') c of
                   Some l \<Rightarrow> l | None \<Rightarrow> c)"

definition upper :: "string \<Rightarrow> string" where
  "upper s = map to_upper s"

definition lower :: "string \<Rightarrow> string" where
  "lower s = map to_lower s"

text \<open>\<^verbatim>\<open>int(d)\<close> for a single decimal digit.\<close>

definition digit_value :: "char \<Rightarrow> int" where
  "digit_value c = (case map_of (zip ''0123456789'' [0, 1, 2, 3, 4, 5, 6, 7, 8, 9]) c of
                      Some v \<Rightarrow> v | None \<Rightarrow> 0)"

text \<open>\<^verbatim>\<open>s.strip()\<close>, \<^verbatim>\<open>s.isdigit()\<close>, \<^verbatim>\<open>s.startswith(p)\<close>, \<^verbatim>\<open>s.endswith(p)\<close>,
  \<^verbatim>\<open>p in s\<close>, \<^verbatim>\<open>s.find(p)\<close> (\<open>-1\<close> when absent), \<^verbatim>\<open>s.split(c)\<close> on one separator
  character and \<^verbatim>\<open>s.split()\<close> on runs of white space.\<close>

definition strip :: "string \<Rightarrow> string" where
  "strip s = rev (dropWhile is_space (rev (dropWhile is_space s)))"

definition isdigit :: "string \<Rightarrow> bool" where
  "isdigit s \<longleftrightarrow> s \<noteq> [] \<and> list_all is_digit s"

definition startswith :: "string \<Rightarrow> string \<Rightarrow> bool" where
  "startswith s p \<longleftrightarrow> take (length p) s = p"

definition endswith :: "string \<Rightarrow> string \<Rightarrow> bool" where
  "endswith s p \<longleftrightarrow> length p \<le> length s \<and> drop (length s - length p) s = p"

fun find_from :: "nat \<Rightarrow> string \<Rightarrow> string \<Rightarrow> int" where
  "find_from i p [] = (if p = [] then int i else -1)"
| "find_from i p (x # xs) = (if startswith (x # xs) p then int i else find_from (Suc i) p xs)"

definition find :: "string \<Rightarrow> string \<Rightarrow> int" where
  "find s p = find_from 0 p s"

definition contains :: "string \<Rightarrow> string \<Rightarrow> bool" where
  "contains s p \<longleftrightarrow> find s p \<noteq> -1"

fun split_on :: "char \<Rightarrow> string \<Rightarrow> string list" where
  "split_on c [] = [[]]"
| "split_on c (x # xs) =
     (if x = c then [] # split_on c xs
      else (case split_on c xs of p # ps \<Rightarrow> (x # p) # ps | [] \<Rightarrow> [[x]]))"

fun split_ws :: "string \<Rightarrow> string \<Rightarrow> string list" where
  "split_ws w [] = (if w = [] then [] else [rev w])"
| "split_ws w (x # xs) =
     (if is_space x then (if w = [] then split_ws [] xs else rev w # split_ws [] xs)
      else split_ws (x # w) xs)"

definition split :: "string \<Rightarrow> string list" where
  "split s = split_ws [] s"

text \<open>Slices \<^verbatim>\<open>s[:i]\<close> and \<^verbatim>\<open>s[i:]\<close>: a negative index counts from the end, and an
  index beyond either end is clipped.\<close>

definition slice_to :: "string \<Rightarrow> int \<Rightarrow> string" where
  "slice_to s i = (if i < 0 then take (nat (int (length s) + i)) s else take (nat i) s)"

definition slice_from :: "string \<Rightarrow> int \<Rightarrow> string" where
  "slice_from s i = (if i < 0 then drop (nat (int (length s) + i)) s else drop (nat i) s)"

text \<open>\<^verbatim>\<open>int(s)\<close> on a string: white space around (tab, newline, vertical tab, form feed,
  carriage return and space, not the separators 0x1c to 0x1f), an optional sign, decimal
  digits with single underscores between them; \<open>None\<close> stands for \<^verbatim>\<open>ValueError\<close>.\<close>

definition is_int_space :: "char \<Rightarrow> bool" where
  "is_int_space c \<longleftrightarrow> c \<in> set [CHR 0x09, CHR 0x0A, CHR 0x0B, CHR 0x0C, CHR 0x0D, CHR 0x20]"

fun int_body_ok :: "string \<Rightarrow> bool" where
  "int_body_ok [] = False"
| "int_body_ok [c] = is_digit c"
| "int_body_ok (c # d # cs) =
     (is_digit c \<and> (if d = CHR ''_'' then int_body_ok cs else int_body_ok (d # cs)))"

definition digits_value :: "string \<Rightarrow> int" where
  "digits_value s = foldl (\<lambda>acc d. 10 * acc + digit_value d) 0 s"

definition py_int :: "string \<Rightarrow> int option" where
  "py_int s =
     (let t = rev (dropWhile is_int_space (rev (dropWhile is_int_space s)));
          neg = (t \<noteq> [] \<and> hd t = CHR ''-'');
          body = (if t \<noteq> [] \<and> (hd t = CHR ''-'' \<or> hd t = CHR ''+'') then tl t else t)
      in if int_body_ok body
         then Some ((if neg then -1 else 1) * digits_value (filter is_digit body))
         else None)"

text \<open>The format \<^verbatim>\<open>{n:03d}\<close> of a counter: decimal, padded with zeros to three digits.\<close>

fun str_of_nat :: "nat \<Rightarrow> string" where
  "str_of_nat n = (if n < 10 then [''0123456789'' ! n]
                   else str_of_nat (n div 10) @ [''0123456789'' ! (n mod 10)])"

declare str_of_nat.simps [simp del]

definition format_03d :: "nat \<Rightarrow> string" where
  "format_03d n = (let s = str_of_nat n in replicate (3 - length s) (CHR ''0'') @ s)"

subsection \<open>Entity model\<close>

record PIIEntity =
  entity_type :: string
  "value" :: string
  start_pos :: int
  end_pos :: int
  confidence :: rat
  detection_method :: string
  status :: string

record DetectionResult =
  entities_found :: "PIIEntity list"
  masked_content :: string
  original_text :: string
  questionable_entities :: "PIIEntity list"
  residual_entities :: "PIIEntity list"

text \<open>The configuration, taken well formed: \<^verbatim>\<open>config.get('mask_format')\<close>, which may be
  absent, and the two triage bounds \<^verbatim>\<open>config['validation']['min_confidence']\<close> and
  \<^verbatim>\<open>config['validation']['questionable_band']\<close>, a pair.\<close>

record config =
  mask_format :: "string option"
  min_confidence :: rat
  questionable_band :: "rat \<times> rat"

definition default_config :: config where
  "default_config = \<lparr>mask_format = Some ''TOKEN'', min_confidence = 35 / 100,
                      questionable_band = (35 / 100, 65 / 100)\<rparr>"

subsection \<open>Validators\<close>

text \<open>The loop of \<^verbatim>\<open>_luhn_check\<close> over \<^verbatim>\<open>enumerate(reversed(digits))\<close>, with the
  index and the running checksum.\<close>

fun luhn_loop :: "nat \<Rightarrow> int \<Rightarrow> int list \<Rightarrow> int" where
  "luhn_loop i checksum [] = checksum"
| "luhn_loop i checksum (digit # ds) =
     (if i mod 2 = 1
      then (let doubled = digit * 2
            in luhn_loop (Suc i) (checksum + (if doubled < 10 then doubled else doubled - 9)) ds)
      else luhn_loop (Suc i) (checksum + digit) ds)"

definition luhn_check :: "string \<Rightarrow> bool" where
  "luhn_check number =
     (let digits = map digit_value (filter is_digit number)
      in if length digits < 13 \<or> length digits > 19 then False
         else luhn_loop 0 0 (rev digits) mod 10 = 0)"

definition validate_ip :: "string \<Rightarrow> bool" where
  "validate_ip ip =
     (let parts = split_on (CHR ''.'') ip
      in if length parts \<noteq> 4 then False
         else list_all (\<lambda>part. case py_int part of
                                  None \<Rightarrow> False
                                | Some num \<Rightarrow> \<not> (num < 0 \<or> num > 255)) parts)"

definition validate_ssn :: "string \<Rightarrow> bool" where
  "validate_ssn ssn =
     (let clean_ssn = filter (\<lambda>c. c \<noteq> CHR ''-'') ssn
      in if length clean_ssn \<noteq> 9 then False
         else if startswith clean_ssn ''000'' \<or> startswith clean_ssn ''666''
                 \<or> startswith clean_ssn ''9'' then False
         else if take 2 (drop 3 clean_ssn) = ''00'' \<or> drop 5 clean_ssn = ''0000'' then False
         else True)"

definition validators :: "string \<Rightarrow> (string \<Rightarrow> bool) option" where
  "validators = map_of [(''CREDIT_CARD'', luhn_check), (''IP_ADDRESS'', validate_ip),
                        (''SSN'', validate_ssn)]"

subsection \<open>Regular expressions, as \<^verbatim>\<open>re.finditer(pattern, text, re.IGNORECASE)\<close> matches them\<close>

text \<open>
  The patterns of the engine use literals, character classes, \<^verbatim>\<open>\b\<close>, greedy counted
  repetition, non-capturing groups and one negative lookahead. The matcher is the
  backtracking one of the \<^verbatim>\<open>re\<close> module: a repetition first tries the most iterations,
  and the first way to complete the match wins. A matching position is the character
  before it (if any) and the text that is left.
\<close>

datatype citem = Range char char | Single char | CDigit | CWord | CSpace

datatype regex =
    Eps
  | Lit char
  | Cls "citem list"
  | WordB
  | Cat regex regex
  | Rep nat "nat option" regex
  | NegLook regex

type_synonym mstate = "char option \<times> string"

fun in_item :: "citem \<Rightarrow> char \<Rightarrow> bool" where
  "in_item (Range lo hi) c \<longleftrightarrow> (of_char lo :: nat) \<le> of_char c \<and> (of_char c :: nat) \<le> of_char hi"
| "in_item (Single x) c \<longleftrightarrow> c = x"
| "in_item CDigit c \<longleftrightarrow> is_digit c"
| "in_item CWord c \<longleftrightarrow> is_word c"
| "in_item CSpace c \<longleftrightarrow> is_space c"

text \<open>Under \<^verbatim>\<open>re.IGNORECASE\<close> a character is in a class when its lower or its upper
  case is, and it matches a literal when both have the same lower case.\<close>

definition in_class :: "citem list \<Rightarrow> char \<Rightarrow> bool" where
  "in_class items c \<longleftrightarrow> list_ex (\<lambda>i. in_item i (to_lower c) \<or> in_item i (to_upper c)) items"

definition at_boundary :: "mstate \<Rightarrow> bool" where
  "at_boundary st =
     (let thatp = (case fst st of None \<Rightarrow> False | Some p \<Rightarrow> is_word p);
          thisp = (case snd st of [] \<Rightarrow> False | x # _ \<Rightarrow> is_word x)
      in thisp \<noteq> thatp)"

text \<open>Greedy repetition of \<open>body\<close>, between \<open>lo\<close> and \<open>hi\<close> times. Every iteration has to
  consume a character (all repeated groups of the pattern table do), so the number of
  iterations is at most the length of the text left, which is what the first call gives
  as the recursion bound.\<close>

primrec rep :: "(mstate \<Rightarrow> (mstate \<Rightarrow> mstate option) \<Rightarrow> mstate option) \<Rightarrow> nat \<Rightarrow> nat \<Rightarrow> nat option
    \<Rightarrow> mstate \<Rightarrow> (mstate \<Rightarrow> mstate option) \<Rightarrow> mstate option" where
  "rep body 0 lo hi st k = (if lo = 0 then k st else None)"
| "rep body (Suc bound) lo hi st k =
     (if hi = Some 0 then k st
      else case body st (\<lambda>st'. if length (snd st') < length (snd st)
                                 then rep body bound (lo - 1) (map_option (\<lambda>h. h - 1) hi) st' k
                                 else None) of
             Some r \<Rightarrow> Some r
           | None \<Rightarrow> if lo = 0 then k st else None)"

primrec rmatch :: "regex \<Rightarrow> mstate \<Rightarrow> (mstate \<Rightarrow> mstate option) \<Rightarrow> mstate option" where
  "rmatch Eps st k = k st"
| "rmatch (Lit c) st k =
     (case snd st of [] \<Rightarrow> None
      | x # xs \<Rightarrow> if to_lower x = to_lower c then k (Some x, xs) else None)"
| "rmatch (Cls items) st k =
     (case snd st of [] \<Rightarrow> None
      | x # xs \<Rightarrow> if in_class items x then k (Some x, xs) else None)"
| "rmatch WordB st k = (if at_boundary st then k st else None)"
| "rmatch (Cat r1 r2) st k = rmatch r1 st (\<lambda>st'. rmatch r2 st' k)"
| "rmatch (Rep lo hi r) st k = rep (rmatch r) (Suc (length (snd st))) lo hi st k"
| "rmatch (NegLook r) st k = (case rmatch r st Some of None \<Rightarrow> k st | Some _ \<Rightarrow> None)"

text \<open>\<^verbatim>\<open>re.finditer\<close>: the spans \<open>(start, end)\<close> of the successive leftmost matches. After
  an empty match the search goes on at the same position for a match that is not empty.\<close>

function finditer_from :: "regex \<Rightarrow> nat \<Rightarrow> mstate \<Rightarrow> (nat \<times> nat) list" where
  "finditer_from r pos st =
     (let advance = (\<lambda>u::unit. case snd st of [] \<Rightarrow> []
                               | x # xs \<Rightarrow> finditer_from r (Suc pos) (Some x, xs))
      in case rmatch r st Some of
           None \<Rightarrow> advance ()
         | Some st' \<Rightarrow>
             if length (snd st') < length (snd st)
             then (pos, pos + (length (snd st) - length (snd st')))
                    # finditer_from r (pos + (length (snd st) - length (snd st'))) st'
             else (pos, pos) #
               (case rmatch r st (\<lambda>st''. if length (snd st'') < length (snd st)
                                           then Some st'' else None) of
                  None \<Rightarrow> advance ()
                | Some st'' \<Rightarrow>
                    if length (snd st'') < length (snd st)
                    then (pos, pos + (length (snd st) - length (snd st'')))
                           # finditer_from r (pos + (length (snd st) - length (snd st''))) st''
                    else advance ()))"
  by pat_completeness auto
termination
  by (relation "measure (\<lambda>(r, pos, st). length (snd st))") auto

declare finditer_from.simps [simp del]

definition finditer :: "regex \<Rightarrow> string \<Rightarrow> (nat \<times> nat) list" where
  "finditer r text = finditer_from r 0 (None, text)"

subsection \<open>The pattern table\<close>

definition cat :: "regex list \<Rightarrow> regex" where
  "cat rs = foldr Cat rs Eps"

abbreviation opt :: "regex \<Rightarrow> regex" where
  "opt r \<equiv> Rep 0 (Some 1) r"

abbreviation star :: "regex \<Rightarrow> regex" where
  "star r \<equiv> Rep 0 None r"

abbreviation plus :: "regex \<Rightarrow> regex" where
  "plus r \<equiv> Rep 1 None r"

abbreviation times :: "nat \<Rightarrow> regex \<Rightarrow> regex" where
  "times n r \<equiv> Rep n (Some n) r"

abbreviation digit :: regex where
  "digit \<equiv> Cls [CDigit]"

text \<open>\<^verbatim>\<open>\b[A-Za-z0-9._%+-]+@[A-Za-z0-9.-]+\.[A-Z|a-z]{2,}\b\<close>\<close>

definition pat_EMAIL :: regex where
  "pat_EMAIL = cat [WordB,
     plus (Cls [Range (CHR ''A'') (CHR ''Z''), Range (CHR ''a'') (CHR ''z''),
                Range (CHR ''0'') (CHR ''9''), Single (CHR ''.''), Single (CHR ''_''),
                Single (CHR ''%''), Single (CHR ''+''), Single (CHR ''-'')]),
     Lit (CHR ''@''),
     plus (Cls [Range (CHR ''A'') (CHR ''Z''), Range (CHR ''a'') (CHR ''z''),
                Range (CHR ''0'') (CHR ''9''), Single (CHR ''.''), Single (CHR ''-'')]),
     Lit (CHR ''.''),
     Rep 2 None (Cls [Range (CHR ''A'') (CHR ''Z''), Single (CHR ''|''),
                      Range (CHR ''a'') (CHR ''z'')]),
     WordB]"

text \<open>\<^verbatim>\<open>\b\(?\d{3}\)?[-.\s]?\d{3}[-.\s]?\d{4}\b(?!\d)\<close>\<close>

definition pat_PHONE :: regex where
  "pat_PHONE = cat [WordB, opt (Lit (CHR ''('')), times 3 digit, opt (Lit (CHR '')'')),
     opt (Cls [Single (CHR ''-''), Single (CHR ''.''), CSpace]), times 3 digit,
     opt (Cls [Single (CHR ''-''), Single (CHR ''.''), CSpace]), times 4 digit,
     WordB, NegLook digit]"

text \<open>\<^verbatim>\<open>\b\d{3}-\d{2}-\d{4}\b\<close>\<close>

definition pat_SSN :: regex where
  "pat_SSN = cat [WordB, times 3 digit, Lit (CHR ''-''), times 2 digit, Lit (CHR ''-''),
     times 4 digit, WordB]"

text \<open>\<^verbatim>\<open>\b\d{4}[-\s]?\d{4}[-\s]?\d{4}[-\s]?\d{4}\b\<close>\<close>

definition pat_CREDIT_CARD :: regex where
  "pat_CREDIT_CARD = cat [WordB, times 4 digit, opt (Cls [Single (CHR ''-''), CSpace]),
     times 4 digit, opt (Cls [Single (CHR ''-''), CSpace]),
     times 4 digit, opt (Cls [Single (CHR ''-''), CSpace]), times 4 digit, WordB]"

text \<open>\<^verbatim>\<open>\b(?:\d{1,3}\.){3}\d{1,3}\b\<close>\<close>

definition pat_IP_ADDRESS :: regex where
  "pat_IP_ADDRESS = cat [WordB, times 3 (cat [Rep 1 (Some 3) digit, Lit (CHR ''.'')]),
     Rep 1 (Some 3) digit, WordB]"

text \<open>\<^verbatim>\<open>https?://(?:[-\w.])+(?:[:\d]+)?(?:/(?:[\w/_.])*(?:\?(?:[\w&=%.])*)?(?:#(?:[\w.])*)?)?\<close>\<close>

definition pat_URL :: regex where
  "pat_URL = cat [Lit (CHR ''h''), Lit (CHR ''t''), Lit (CHR ''t''), Lit (CHR ''p''),
     opt (Lit (CHR ''s'')), Lit (CHR '':''), Lit (CHR ''/''), Lit (CHR ''/''),
     plus (Cls [Single (CHR ''-''), CWord, Single (CHR ''.'')]),
     opt (plus (Cls [Single (CHR '':''), CDigit])),
     opt (cat [Lit (CHR ''/''),
               star (Cls [CWord, Single (CHR ''/''), Single (CHR ''_''), Single (CHR ''.'')]),
               opt (cat [Lit (CHR ''?''),
                         star (Cls [CWord, Single (CHR ''&''), Single (CHR ''=''),
                                    Single (CHR ''%''), Single (CHR ''.'')])]),
               opt (cat [Lit (CHR ''#''), star (Cls [CWord, Single (CHR ''.'')])])])]"

text \<open>\<^verbatim>\<open>\b\d{1,2}[/-]\d{1,2}[/-]\d{2,4}\b\<close>\<close>

definition pat_DATE :: regex where
  "pat_DATE = cat [WordB, Rep 1 (Some 2) digit, Cls [Single (CHR ''/''), Single (CHR ''-'')],
     Rep 1 (Some 2) digit, Cls [Single (CHR ''/''), Single (CHR ''-'')],
     Rep 2 (Some 4) digit, WordB]"

text \<open>\<^verbatim>\<open>\b\d{5}(?:-\d{4})?\b\<close>\<close>

definition pat_ZIP_CODE :: regex where
  "pat_ZIP_CODE = cat [WordB, times 5 digit, opt (cat [Lit (CHR ''-''), times 4 digit]), WordB]"

text \<open>The dictionary \<^verbatim>\<open>self.patterns\<close>, in its insertion order, which is the order
  \<^verbatim>\<open>.items()\<close> iterates in.\<close>

definition patterns :: "(string \<times> regex) list" where
  "patterns = [(''EMAIL'', pat_EMAIL), (''PHONE'', pat_PHONE), (''SSN'', pat_SSN),
     (''CREDIT_CARD'', pat_CREDIT_CARD), (''IP_ADDRESS'', pat_IP_ADDRESS),
     (''URL'', pat_URL), (''DATE'', pat_DATE), (''ZIP_CODE'', pat_ZIP_CODE)]"

subsection \<open>Pattern detector and residual validator\<close>

text \<open>Both \<^verbatim>\<open>_detect_rule_based\<close> and \<^verbatim>\<open>_validate_residual_pii\<close> run every pattern over
  the text and keep the matches their validator (if any) accepts; they differ in the
  provenance and status they give the entities.\<close>

definition scan_patterns :: "string \<Rightarrow> string \<Rightarrow> string \<Rightarrow> PIIEntity list" where
  "scan_patterns method st text =
     concat (map (\<lambda>(etype, pattern).
        List.map_filter (\<lambda>(s, e).
           let v = take (e - s) (drop s text)
           in if (case validators etype of Some valid \<Rightarrow> \<not> valid v | None \<Rightarrow> False)
              then None
              else Some \<lparr>entity_type = etype, value = v, start_pos = int s, end_pos = int e,
                         confidence = 1, detection_method = method, status = st\<rparr>)
          (finditer pattern text)) patterns)"

definition detect_rule_based :: "string \<Rightarrow> PIIEntity list" where
  "detect_rule_based text = scan_patterns ''rule_based'' ''auto_masked'' text"

definition validate_residual_pii :: "string \<Rightarrow> PIIEntity list" where
  "validate_residual_pii masked_text = scan_patterns ''residual_validation'' ''residual'' masked_text"

subsection \<open>Model detector\<close>

text \<open>
  A model backend is outside the engine: it returns a value or raises. The two
  \<^verbatim>\<open>mask_pii\<close> backends return the masked text and a dictionary from labels to the
  values found (strings); the BERT backend stands for \<^verbatim>\<open>_detect_with_bert_ner\<close> with its
  loaded model and tokenizer. An attribute that is \<^verbatim>\<open>None\<close> is a backend that did not
  load. The DeBERTa model is only tested for being loaded: what runs then is the
  heuristic of \<^verbatim>\<open>_detect_with_base_deberta\<close>, which has no statement that raises on a
  string.
\<close>

datatype error = Raised string

type_synonym pii_dict = "(string \<times> string list) list"

record engine =
  longtransformer_detector :: "(string \<Rightarrow> error + string \<times> pii_dict) option"
  ml_detector :: "(string \<Rightarrow> error + string \<times> pii_dict) option"
  fallback_ner_model :: "(string \<Rightarrow> error + PIIEntity list) option"
  base_deberta :: bool

definition map_ml_label_to_pii_type :: "string \<Rightarrow> string option" where
  "map_ml_label_to_pii_type = map_of
     [(''LABEL_0'', ''EMAIL''), (''LABEL_1'', ''ID_NUM''), (''LABEL_2'', ''PERSON''),
      (''LABEL_3'', ''PERSON''), (''LABEL_4'', ''PERSON''), (''LABEL_5'', ''PERSON''),
      (''LABEL_6'', ''USERNAME''), (''LABEL_7'', ''PERSON''), (''LABEL_8'', ''PERSON''),
      (''LABEL_9'', ''PHONE''), (''LABEL_10'', ''ADDRESS''), (''LABEL_11'', ''PERSON''),
      (''LABEL_12'', ''URL'')]"

definition improve_entity_classification :: "PIIEntity \<Rightarrow> PIIEntity" where
  "improve_entity_classification entity =
     (let v = strip (lower (value entity))
      in if contains v ''@'' \<and> contains v ''.'' then entity\<lparr>entity_type := ''EMAIL''\<rparr>
         else if isdigit v \<and> length v \<ge> 4 then entity\<lparr>entity_type := ''ID_NUM''\<rparr>
         else if v \<in> set [''hello'', ''hi'', ''hey''] then entity\<lparr>entity_type := ''GREETING''\<rparr>
         else if v \<in> set [''email'', ''phone'', ''address'', ''name'']
              then entity\<lparr>entity_type := ''FIELD_LABEL''\<rparr>
         else if v \<in> set [''my'', ''i'', ''me''] then entity\<lparr>entity_type := ''PRONOUN''\<rparr>
         else entity)"

definition filter_ml_entities :: "PIIEntity list \<Rightarrow> PIIEntity list" where
  "filter_ml_entities entities =
     filter (\<lambda>entity.
        \<not> (length (strip (value entity)) \<le> 1)
        \<and> \<not> (strip (value entity) \<in> set ['','', ''.'', '':'', '';'', ''!'', ''?'', '' '',
                                            [CHR 0x0A], [CHR 0x09]])
        \<and> \<not> (length (strip (value entity)) < 2)
        \<and> \<not> (isdigit (strip (value entity)) \<and> length (strip (value entity)) < 4)) entities"

text \<open>The body of the first \<^verbatim>\<open>try\<close> of \<^verbatim>\<open>_detect_ml\<close>, after \<^verbatim>\<open>mask_pii\<close> has returned.\<close>

definition longtransformer_entities :: "string \<Rightarrow> pii_dict \<Rightarrow> PIIEntity list" where
  "longtransformer_entities text pii_dict =
     (let entities = concat (map (\<lambda>(label, vals).
            List.map_filter (\<lambda>v.
               let sp = find text v
               in if sp \<noteq> -1
                  then (case map_ml_label_to_pii_type label of
                          None \<Rightarrow> None
                        | Some mapped_type \<Rightarrow>
                            if mapped_type = [] then None
                            else Some \<lparr>entity_type = mapped_type, value = v, start_pos = sp,
                                       end_pos = sp + int (length v), confidence = 85 / 100,
                                       detection_method = ''longtransformer_pii'',
                                       status = ''auto_masked''\<rparr>)
                  else None) vals) pii_dict);
          entities = filter_ml_entities entities;
          entities = map improve_entity_classification entities
      in filter (\<lambda>e. entity_type e \<notin> set [''GREETING'', ''FIELD_LABEL'', ''PRONOUN'']) entities)"

text \<open>The body of the second \<^verbatim>\<open>try\<close>.\<close>

definition custom_model_entities :: "string \<Rightarrow> pii_dict \<Rightarrow> PIIEntity list" where
  "custom_model_entities text pii_dict =
     concat (map (\<lambda>(label, vals).
        List.map_filter (\<lambda>v.
           let sp = find text v
           in if sp \<noteq> -1
              then Some \<lparr>entity_type = upper label, value = v, start_pos = sp,
                         end_pos = sp + int (length v), confidence = 8 / 10,
                         detection_method = ''custom_pii_model'', status = ''auto_masked''\<rparr>
              else None) vals) pii_dict)"

text \<open>\<^verbatim>\<open>_detect_with_base_deberta\<close>. \<^verbatim>\<open>text.split()\<close> yields no empty word, so \<^verbatim>\<open>word[0]\<close>
  is always there.\<close>

definition common_words :: "string list" where
  "common_words = [''The'', ''This'', ''That'', ''These'', ''Those'', ''And'', ''Or'', ''But'',
     ''In'', ''On'', ''At'', ''To'', ''For'', ''Of'', ''With'', ''By'']"

definition detect_with_base_deberta :: "string \<Rightarrow> PIIEntity list" where
  "detect_with_base_deberta text =
     List.map_filter (\<lambda>word.
        if (word \<noteq> [] \<and> is_upper (hd word)) \<and> length word > 2
           \<and> \<not> endswith word ''.'' \<and> \<not> endswith word '',''
           \<and> \<not> list_ex is_digit word
        then (if word \<notin> set common_words
              then Some \<lparr>entity_type = ''POTENTIAL_NAME'', value = word,
                         start_pos = find text word,
                         end_pos = find text word + int (length word), confidence = 3 / 10,
                         detection_method = ''base_deberta_heuristic'',
                         status = ''auto_masked''\<rparr>
              else None)
        else None) (split text)"

text \<open>One \<^verbatim>\<open>if backend: try: ... return ... except Exception: print(...)\<close> block: the
  entities to return, or \<open>None\<close> when the backend is not loaded or raised, in which case
  \<^verbatim>\<open>_detect_ml\<close> goes on to the next block.\<close>

definition try_backend :: "(string \<Rightarrow> error + 'a) option \<Rightarrow> string \<Rightarrow> ('a \<Rightarrow> PIIEntity list)
    \<Rightarrow> PIIEntity list option" where
  "try_backend backend text convert =
     (case backend of
        None \<Rightarrow> None
      | Some run \<Rightarrow> (case run text of Inl e \<Rightarrow> None | Inr out \<Rightarrow> Some (convert out)))"

definition detect_ml :: "engine \<Rightarrow> string \<Rightarrow> PIIEntity list" where
  "detect_ml eng text =
     (case try_backend (longtransformer_detector eng) text
             (\<lambda>(masked_text, pii_dict). longtransformer_entities text pii_dict) of
        Some entities \<Rightarrow> entities
      | None \<Rightarrow>
     (case try_backend (ml_detector eng) text
             (\<lambda>(masked_text, pii_dict). custom_model_entities text pii_dict) of
        Some entities \<Rightarrow> entities
      | None \<Rightarrow>
     (case try_backend (fallback_ner_model eng) text (\<lambda>found. found) of
        Some entities \<Rightarrow> entities
      | None \<Rightarrow>
     (if base_deberta eng then detect_with_base_deberta text else []))))"

subsection \<open>Fusion and resolution\<close>

definition overlaps :: "PIIEntity \<Rightarrow> PIIEntity \<Rightarrow> bool" where
  "overlaps entity existing \<longleftrightarrow>
     start_pos entity < end_pos existing \<and> end_pos entity > start_pos existing"

text \<open>Two spans are apart when the overlap test of the fusion loop fails on them.\<close>

definition apart :: "PIIEntity \<Rightarrow> PIIEntity \<Rightarrow> bool" where
  "apart a b \<longleftrightarrow> \<not> overlaps a b"

text \<open>The inner loop \<^verbatim>\<open>for existing in resolved\<close>: it walks the list as it stands at the
  start and stops (\<^verbatim>\<open>break\<close>) at the first overlap, after at most one
  \<^verbatim>\<open>resolved.remove(existing)\<close> (which removes the first element equal to \<open>existing\<close>) and
  \<^verbatim>\<open>resolved.append(entity)\<close>. The result is the list afterwards and the flag \<open>overlap\<close>.\<close>

fun scan_resolved :: "PIIEntity \<Rightarrow> PIIEntity list \<Rightarrow> PIIEntity list \<Rightarrow> PIIEntity list \<times> bool" where
  "scan_resolved entity resolved [] = (resolved, False)"
| "scan_resolved entity resolved (existing # rest) =
     (if overlaps entity existing
      then (if detection_method entity = ''rule_based''
               \<and> detection_method existing \<noteq> ''rule_based''
            then (remove1 existing resolved @ [entity], True)
            else if detection_method entity = ''rule_based''
                    \<and> detection_method existing = ''rule_based''
            then (if confidence entity > confidence existing
                  then (remove1 existing resolved @ [entity], True)
                  else (resolved, True))
            else (resolved, True))
      else scan_resolved entity resolved rest)"

definition resolve_entity :: "PIIEntity list \<Rightarrow> PIIEntity \<Rightarrow> PIIEntity list" where
  "resolve_entity resolved entity =
     (case scan_resolved entity resolved resolved of
        (resolved', overlap) \<Rightarrow> if \<not> overlap then resolved' @ [entity] else resolved')"

definition fuse_and_resolve_entities :: "PIIEntity list \<Rightarrow> PIIEntity list \<Rightarrow> PIIEntity list" where
  "fuse_and_resolve_entities rule_entities ml_entities =
     (let all_entities = rule_entities @ ml_entities
      in if all_entities = [] then []
         else foldl resolve_entity [] (sort_key start_pos all_entities))"

subsection \<open>Confidence triage\<close>

text \<open>\<^verbatim>\<open>_mark_questionable_entities\<close> sets the status of the entities in the band in place
  and returns them in a new list: the model returns the entities after the update and
  the list returned. The entities of one call are distinct objects.\<close>

definition in_band :: "config \<Rightarrow> PIIEntity \<Rightarrow> bool" where
  "in_band cfg entity \<longleftrightarrow>
     min_confidence cfg \<le> confidence entity \<and> confidence entity \<le> snd (questionable_band cfg)"

definition mark_questionable_entities :: "config \<Rightarrow> PIIEntity list
    \<Rightarrow> PIIEntity list \<times> PIIEntity list" where
  "mark_questionable_entities cfg entities =
     (let marked = map (\<lambda>entity. if in_band cfg entity
                                  then entity\<lparr>status := ''questionable''\<rparr> else entity) entities
      in (marked, filter (in_band cfg) marked))"

subsection \<open>Masking\<close>

definition structured_entities :: "string set" where
  "structured_entities = {''EMAIL'', ''CREDIT_CARD'', ''PHONE'', ''IP_ADDRESS'', ''SSN'',
     ''NATIONAL_ID'', ''BANK_ACCT'', ''IP''}"

definition free_text_entities :: "string set" where
  "free_text_entities = {''PERSON'', ''BRAND'', ''ADDRESS'', ''USERNAME'', ''GEO''}"

definition token :: "string \<Rightarrow> nat \<Rightarrow> string" where
  "token etype n = ''['' @ upper etype @ ''_'' @ format_03d n @ '']''"

text \<open>The mask of an entity, given the value of its type's counter.\<close>

definition mask_of :: "config \<Rightarrow> PIIEntity \<Rightarrow> nat \<Rightarrow> string" where
  "mask_of cfg entity n =
     (if entity_type entity \<in> structured_entities then token (entity_type entity) n
      else if entity_type entity \<in> free_text_entities
      then (if mask_format cfg = Some ''PARTIAL_REVEAL''
            then (if length (value entity) > 1
                  then hd (value entity) # replicate (length (value entity) - 1) (CHR ''*'')
                  else ''*'')
            else token (entity_type entity) n)
      else token (entity_type entity) n)"

definition bump :: "(string \<rightharpoonup> nat) \<Rightarrow> string \<Rightarrow> (string \<rightharpoonup> nat)" where
  "bump token_counter etype =
     (case token_counter etype of
        None \<Rightarrow> token_counter(etype \<mapsto> 1)
      | Some n \<Rightarrow> token_counter(etype \<mapsto> n + 1))"

definition count_of :: "(string \<rightharpoonup> nat) \<Rightarrow> string \<Rightarrow> nat" where
  "count_of token_counter etype = (case token_counter etype of None \<Rightarrow> 0 | Some n \<Rightarrow> n)"

fun mask_loop :: "config \<Rightarrow> PIIEntity list \<Rightarrow> string \<Rightarrow> (string \<rightharpoonup> nat) \<Rightarrow> string" where
  "mask_loop cfg [] masked_text token_counter = masked_text"
| "mask_loop cfg (entity # rest) masked_text token_counter =
     (let token_counter' = bump token_counter (entity_type entity);
          mask = mask_of cfg entity (count_of token_counter' (entity_type entity))
      in mask_loop cfg rest
           (slice_to masked_text (start_pos entity) @ mask
              @ slice_from masked_text (end_pos entity))
           token_counter')"

text \<open>\<^verbatim>\<open>_mask_text\<close> sorts the list it is given in place, descending by start (a stable
  sort): the model returns the masked text and the list as the call leaves it.\<close>

definition mask_text :: "config \<Rightarrow> string \<Rightarrow> PIIEntity list \<Rightarrow> string \<times> PIIEntity list" where
  "mask_text cfg text entities =
     (if entities = [] then (text, entities)
      else (let sorted_entities = sort_key (\<lambda>x. - start_pos x) entities
            in (mask_loop cfg sorted_entities text Map.empty, sorted_entities)))"

subsection \<open>The orchestrator\<close>

text \<open>
  \<^verbatim>\<open>detect_pii\<close> calls six methods of the engine in a row, with no handler of its own: an
  exception of a method ends the call. The sequence is given for any six methods that
  return or raise, and then for the engine's own.
\<close>

record methods =
  m_detect_rule_based :: "string \<Rightarrow> error + PIIEntity list"
  m_detect_ml :: "string \<Rightarrow> error + PIIEntity list"
  m_fuse_and_resolve_entities :: "PIIEntity list \<Rightarrow> PIIEntity list \<Rightarrow> error + PIIEntity list"
  m_mark_questionable_entities :: "PIIEntity list \<Rightarrow> error + PIIEntity list \<times> PIIEntity list"
  m_mask_text :: "string \<Rightarrow> PIIEntity list \<Rightarrow> error + string \<times> PIIEntity list"
  m_validate_residual_pii :: "string \<Rightarrow> error + PIIEntity list"

definition call :: "error + 'a \<Rightarrow> ('a \<Rightarrow> error + 'b) \<Rightarrow> error + 'b" where
  "call r k = (case r of Inl e \<Rightarrow> Inl e | Inr v \<Rightarrow> k v)"

definition detect_pii_with :: "methods \<Rightarrow> string \<Rightarrow> error + DetectionResult" where
  "detect_pii_with self text =
     call (m_detect_rule_based self text) (\<lambda>rule_entities.
     call (m_detect_ml self text) (\<lambda>ml_entities.
     call (m_fuse_and_resolve_entities self rule_entities ml_entities) (\<lambda>all_entities.
     call (m_mark_questionable_entities self all_entities) (\<lambda>(all_entities, questionable).
     call (m_mask_text self text all_entities) (\<lambda>(masked, all_entities).
     call (m_validate_residual_pii self masked) (\<lambda>residual.
     Inr \<lparr>entities_found = all_entities, masked_content = masked, original_text = text,
          questionable_entities = questionable, residual_entities = residual\<rparr>))))))"

definition engine_methods :: "engine \<Rightarrow> config \<Rightarrow> methods" where
  "engine_methods eng cfg =
     \<lparr>m_detect_rule_based = (\<lambda>text. Inr (detect_rule_based text)),
      m_detect_ml = (\<lambda>text. Inr (detect_ml eng text)),
      m_fuse_and_resolve_entities = (\<lambda>rule_entities ml_entities.
         Inr (fuse_and_resolve_entities rule_entities ml_entities)),
      m_mark_questionable_entities = (\<lambda>entities. Inr (mark_questionable_entities cfg entities)),
      m_mask_text = (\<lambda>text entities. Inr (mask_text cfg text entities)),
      m_validate_residual_pii = (\<lambda>masked_text. Inr (validate_residual_pii masked_text))\<rparr>"

definition detect_pii :: "engine \<Rightarrow> config \<Rightarrow> string \<Rightarrow> error + DetectionResult" where
  "detect_pii eng cfg text = detect_pii_with (engine_methods eng cfg) text"

text \<open>An engine on which every model backend failed to load.\<close>

definition rule_only :: engine where
  "rule_only = \<lparr>longtransformer_detector = None, ml_detector = None,
                fallback_ner_model = None, base_deberta = False\<rparr>"

section \<open>Definitions that follow the specification\<close>

text \<open>These definitions are written from the words of the specification, to be compared
  with the functions above, which are written from the code; some name the inputs of
  the examples.\<close>

subsection \<open>Fusion, as the specification describes it\<close>

text \<open>A candidate contends with the first resolved entity whose span overlaps its own. It
  wins when it is rule-based and the existing entity is not, or when both are rule-based
  and its confidence is strictly higher; the existing entity is then removed and the
  candidate kept. Otherwise the candidate is dropped. A candidate that overlaps no
  resolved entity is appended. Candidates are taken in ascending order of start.\<close>

definition wins_spec :: "PIIEntity \<Rightarrow> PIIEntity \<Rightarrow> bool" where
  "wins_spec candidate existing \<longleftrightarrow>
     detection_method candidate = ''rule_based''
     \<and> (detection_method existing \<noteq> ''rule_based'' \<or> confidence candidate > confidence existing)"

fun contend_spec :: "PIIEntity \<Rightarrow> PIIEntity list \<Rightarrow> PIIEntity list" where
  "contend_spec candidate [] = [candidate]"
| "contend_spec candidate (existing # rest) =
     (if overlaps candidate existing
      then (if wins_spec candidate existing then rest @ [candidate] else existing # rest)
      else existing # contend_spec candidate rest)"

definition fuse_spec :: "PIIEntity list \<Rightarrow> PIIEntity list \<Rightarrow> PIIEntity list" where
  "fuse_spec rule_entities ml_entities =
     foldl (\<lambda>resolved candidate. contend_spec candidate resolved) []
       (sort_key start_pos (rule_entities @ ml_entities))"

subsection \<open>The Luhn checksum\<close>




subsection \<open>Backends that raise, methods that raise\<close>

text \<open>A backend is unavailable on a text when it did not load or raises there.\<close>

definition raising :: "string \<Rightarrow> string \<Rightarrow> error + 'a" where
  "raising name text = Inl (Raised name)"

definition unavailable :: "(string \<Rightarrow> error + 'a) option \<Rightarrow> string \<Rightarrow> bool" where
  "unavailable backend text \<longleftrightarrow> (case backend of None \<Rightarrow> True | Some run \<Rightarrow> isl (run text))"

text \<open>An engine whose BERT model loaded without its tokenizer, so that the backend raises
  on every text, and whose DeBERTa model loaded; and an engine whose only backend raises.\<close>

definition ner_failing_engine :: engine where
  "ner_failing_engine = rule_only\<lparr>fallback_ner_model := Some (raising ''AttributeError''),
                                  base_deberta := True\<rparr>"

definition longtransformer_failing_engine :: engine where
  "longtransformer_failing_engine =
     rule_only\<lparr>longtransformer_detector := Some (raising ''RuntimeError'')\<rparr>"

text \<open>Method tables that find nothing, and three in which one step raises.\<close>

definition quiet_methods :: methods where
  "quiet_methods =
     \<lparr>m_detect_rule_based = (\<lambda>text. Inr []),
      m_detect_ml = (\<lambda>text. Inr []),
      m_fuse_and_resolve_entities = (\<lambda>rule_entities ml_entities. Inr []),
      m_mark_questionable_entities = (\<lambda>entities. Inr (entities, [])),
      m_mask_text = (\<lambda>text entities. Inr (text, entities)),
      m_validate_residual_pii = (\<lambda>masked_text. Inr [])\<rparr>"

definition failing_patterns :: methods where
  "failing_patterns = quiet_methods\<lparr>m_detect_rule_based := (\<lambda>text. Inl (Raised ''ValueError''))\<rparr>"

definition failing_fusion :: methods where
  "failing_fusion = quiet_methods\<lparr>m_fuse_and_resolve_entities :=
     (\<lambda>rule_entities ml_entities. Inl (Raised ''TypeError''))\<rparr>"

definition failing_masking :: methods where
  "failing_masking = quiet_methods\<lparr>m_mask_text := (\<lambda>text entities. Inl (Raised ''TypeError''))\<rparr>"

subsection \<open>Masking, as the specification describes it\<close>

text \<open>The masked text is the source text in which the span of every entity is replaced by
  the entity's mask, the text between the spans being left as it is. The entities come
  in the order of masking, rightmost first, each with its mask; \<open>spliced_spec text b\<close>
  is the text up to \<open>b\<close> with the replacements made. The masks are numbered by one
  counter for each entity type, in the order of masking.\<close>

fun assign_masks_spec :: "config \<Rightarrow> PIIEntity list \<Rightarrow> (string \<rightharpoonup> nat) \<Rightarrow> string list" where
  "assign_masks_spec cfg [] token_counter = []"
| "assign_masks_spec cfg (e # es) token_counter =
     mask_of cfg e (count_of (bump token_counter (entity_type e)) (entity_type e))
       # assign_masks_spec cfg es (bump token_counter (entity_type e))"

fun spliced_spec :: "string \<Rightarrow> int \<Rightarrow> (PIIEntity \<times> string) list \<Rightarrow> string" where
  "spliced_spec text b [] = take (nat b) text"
| "spliced_spec text b ((e, m) # rest) =
     spliced_spec text (start_pos e) rest @ m
       @ take (nat b - nat (end_pos e)) (drop (nat (end_pos e)) text)"

text \<open>Spans that are not empty, lie below \<open>b\<close> and follow each other from right to left.\<close>

fun desc_chain :: "int \<Rightarrow> PIIEntity list \<Rightarrow> bool" where
  "desc_chain b [] \<longleftrightarrow> True"
| "desc_chain b (e # es) \<longleftrightarrow>
     0 \<le> start_pos e \<and> start_pos e < end_pos e \<and> end_pos e \<le> b \<and> desc_chain (start_pos e) es"

text \<open>An engine with the DeBERTa heuristic as its only model backend.\<close>

definition deberta_engine :: engine where
  "deberta_engine = rule_only\<lparr>base_deberta := True\<rparr>"

subsection \<open>Inputs of the masking examples\<close>

definition partial_reveal_config :: config where
  "partial_reveal_config = default_config\<lparr>mask_format := Some ''PARTIAL_REVEAL''\<rparr>"

definition email_entity :: PIIEntity where
  "email_entity = \<lparr>entity_type = ''EMAIL'', value = ''a@b.cd'', start_pos = 9, end_pos = 15,
     confidence = 1, detection_method = ''rule_based'', status = ''auto_masked''\<rparr>"

section \<open>Properties\<close>

subsection \<open>What a call of \<^verbatim>\<open>detect_pii\<close> returns\<close>

lemma detect_pii_eq:
  "detect_pii eng cfg text =
     (let tri = mark_questionable_entities cfg
                  (fuse_and_resolve_entities (detect_rule_based text) (detect_ml eng text));
          m = mask_text cfg text (fst tri)
      in Inr \<lparr>entities_found = snd m, masked_content = fst m, original_text = text,
              questionable_entities = snd tri,
              residual_entities = validate_residual_pii (fst m)\<rparr>)"
  by (simp add: detect_pii_def detect_pii_with_def engine_methods_def call_def Let_def
           split: prod.splits)

lemma apart_sym: "apart a b \<Longrightarrow> apart b a"
  by (auto simp: apart_def overlaps_def)

lemma apart_iff: "apart a b \<longleftrightarrow> start_pos a \<ge> end_pos b \<or> start_pos b \<ge> end_pos a"
  by (auto simp: apart_def overlaps_def)

lemma sorted_wrt_remove1: "sorted_wrt P xs \<Longrightarrow> sorted_wrt P (remove1 x xs)"
  by (induction xs) (auto dest: notin_set_remove1)

lemma apart_remove1:
  "sorted_wrt apart xs \<Longrightarrow> x \<in> set xs \<Longrightarrow> y \<in> set (remove1 x xs) \<Longrightarrow> apart x y"
proof (induction xs)
  case Nil
  then show ?case by simp
next
  case (Cons a xs)
  show ?case
  proof (cases "x = a")
    case True
    with Cons.prems show ?thesis by auto
  next
    case False
    with Cons.prems have x: "x \<in> set xs" and y: "y = a \<or> y \<in> set (remove1 x xs)" by auto
    from y show ?thesis
    proof
      assume "y = a"
      with Cons.prems(1) x show ?thesis by (auto intro: apart_sym)
    next
      assume "y \<in> set (remove1 x xs)"
      with Cons x show ?thesis by auto
    qed
  qed
qed

lemma two_overlaps:
  assumes "overlaps e a" "overlaps e b" "start_pos a \<le> start_pos e" "start_pos b \<le> start_pos e"
  shows "overlaps a b"
  using assms by (auto simp: overlaps_def)

lemma scan_resolved_set:
  "set (fst (scan_resolved e resolved rest)) \<subseteq> insert e (set resolved)"
  by (induction rest) (auto dest: notin_set_remove1 simp: Let_def)

lemma scan_resolved_apart:
  assumes "sorted_wrt apart resolved"
    and "\<forall>y\<in>set resolved. start_pos y \<le> start_pos e"
    and "set rest \<subseteq> set resolved"
    and "\<forall>y\<in>set resolved. y \<in> set rest \<or> apart y e"
  shows "sorted_wrt apart (fst (scan_resolved e resolved rest))
         \<and> (\<not> snd (scan_resolved e resolved rest) \<longrightarrow> (\<forall>y\<in>set resolved. apart y e))"
  using assms(3,4)
proof (induction rest)
  case Nil
  with assms(1) show ?case by simp
next
  case (Cons x rest)
  show ?case
  proof (cases "overlaps e x")
    case False
    then have "apart x e" by (auto simp: apart_def overlaps_def)
    with Cons.prems have "\<forall>y\<in>set resolved. y \<in> set rest \<or> apart y e" by auto
    with Cons False show ?thesis by simp
  next
    case True
    have x: "x \<in> set resolved" using Cons.prems by simp
    have rm: "sorted_wrt apart (remove1 x resolved @ [e])"
    proof -
      have "apart y e" if y: "y \<in> set (remove1 x resolved)" for y
      proof (rule ccontr)
        assume "\<not> apart y e"
        then have "overlaps e y" by (auto simp: apart_def overlaps_def)
        moreover have "start_pos y \<le> start_pos e" "start_pos x \<le> start_pos e"
          using y x assms(2) by (auto dest: notin_set_remove1)
        ultimately have "overlaps x y" using True two_overlaps by blast
        moreover have "apart x y" using apart_remove1[OF assms(1) x y] .
        ultimately show False by (simp add: apart_def)
      qed
      then show ?thesis
        using assms(1) by (simp add: sorted_wrt_append sorted_wrt_remove1)
    qed
    show ?thesis using True rm assms(1) by simp
  qed
qed

lemma resolve_entity_apart:
  assumes "sorted_wrt apart resolved" and "\<forall>y\<in>set resolved. start_pos y \<le> start_pos e"
  shows "sorted_wrt apart (resolve_entity resolved e)"
proof -
  from scan_resolved_apart[OF assms, of resolved]
  have 1: "sorted_wrt apart (fst (scan_resolved e resolved resolved))"
    and 2: "\<not> snd (scan_resolved e resolved resolved) \<longrightarrow> (\<forall>y\<in>set resolved. apart y e)"
    by auto
  have 3: "\<not> snd (scan_resolved e resolved rest) \<Longrightarrow> fst (scan_resolved e resolved rest) = resolved" for rest
    by (induction rest) (auto)
  show ?thesis
    using 1 2 3[of resolved]
    by (auto simp: resolve_entity_def sorted_wrt_append split: prod.splits)
qed

lemma resolve_entity_set: "set (resolve_entity resolved e) \<subseteq> insert e (set resolved)"
proof (cases "scan_resolved e resolved resolved")
  case (Pair r b)
  with scan_resolved_set[of e resolved resolved] show ?thesis
    by (auto simp: resolve_entity_def)
qed

lemma foldl_resolve_apart:
  "sorted (map start_pos es) \<Longrightarrow> sorted_wrt apart resolved
   \<Longrightarrow> \<forall>y\<in>set resolved. \<forall>e\<in>set es. start_pos y \<le> start_pos e
   \<Longrightarrow> sorted_wrt apart (foldl resolve_entity resolved es)"
proof (induction es arbitrary: resolved)
  case Nil
  then show ?case by simp
next
  case (Cons e es)
  have a: "sorted_wrt apart (resolve_entity resolved e)"
    using Cons.prems by (intro resolve_entity_apart) auto
  have b: "\<forall>y\<in>set (resolve_entity resolved e). \<forall>e'\<in>set es. start_pos y \<le> start_pos e'"
    using Cons.prems resolve_entity_set[of resolved e] by fastforce
  show ?case using Cons.IH[OF _ a b] Cons.prems(1) by simp
qed

lemma fuse_apart: "sorted_wrt apart (fuse_and_resolve_entities rs ms)"
  unfolding fuse_and_resolve_entities_def Let_def
  by (auto intro!: foldl_resolve_apart)

lemma apart_commute: "apart a b \<longleftrightarrow> apart b a"
  by (auto simp: apart_def overlaps_def)

lemma sorted_wrt_insort_key:
  "sorted_wrt apart (insort_key f x xs) \<longleftrightarrow> (\<forall>y\<in>set xs. apart x y) \<and> sorted_wrt apart xs"
proof (induction xs)
  case Nil
  then show ?case by simp
next
  case (Cons a xs)
  show ?case
  proof (cases "f x \<le> f a")
    case True
    then show ?thesis by simp
  next
    case False
    then show ?thesis
      using Cons.IH apart_commute[of x a] by (auto simp: set_insort_key)
  qed
qed

lemma sorted_wrt_sort_key: "sorted_wrt apart (sort_key f xs) \<longleftrightarrow> sorted_wrt apart xs"
proof (induction xs)
  case Nil
  then show ?case by simp
next
  case (Cons a xs)
  have "sort_key f (a # xs) = insort_key f a (sort_key f xs)"
    by (simp add: sort_key_def)
  with Cons show ?case by (simp add: sorted_wrt_insort_key)
qed

lemma apart_marked:
  "apart (if in_band cfg a then a\<lparr>status := s\<rparr> else a) (if in_band cfg b then b\<lparr>status := s\<rparr> else b)
     \<longleftrightarrow> apart a b"
  by (simp add: apart_def overlaps_def)

lemma found_apart:
  "sorted_wrt apart (snd (mask_text cfg text (fst (mark_questionable_entities cfg
       (fuse_and_resolve_entities rs ms)))))"
proof -
  have "sorted_wrt apart (fst (mark_questionable_entities cfg xs))" if "sorted_wrt apart xs" for xs
    using that by (simp add: mark_questionable_entities_def Let_def sorted_wrt_map apart_marked)
  then show ?thesis
    by (simp add: mask_text_def Let_def sorted_wrt_sort_key fuse_apart)
qed


lemma mask_text_descending:
  "sorted_wrt (\<lambda>a b. start_pos a \<ge> start_pos b) (snd (mask_text cfg text xs))"
proof -
  have "sorted (map (\<lambda>x. - start_pos x) (sort_key (\<lambda>x. - start_pos x) xs))"
    by (rule sorted_sort_key)
  then have "sorted_wrt (\<lambda>a b. start_pos a \<ge> start_pos b) (sort_key (\<lambda>x. - start_pos x) xs)"
    by (simp add: sorted_map)
  then show ?thesis by (simp add: mask_text_def Let_def)
qed

text \<open>The run of the engine, without a model backend, on a short text with an e-mail
  address and an IPv4 address.\<close>

lemma small_run:
  "detect_pii rule_only default_config ''a@b.cd 1.2.3.4'' =
     Inr \<lparr>entities_found =
        [\<lparr>entity_type = ''IP_ADDRESS'', value = ''1.2.3.4'', start_pos = 7, end_pos = 14,
          confidence = 1, detection_method = ''rule_based'', status = ''auto_masked''\<rparr>,
         \<lparr>entity_type = ''EMAIL'', value = ''a@b.cd'', start_pos = 0, end_pos = 6,
          confidence = 1, detection_method = ''rule_based'', status = ''auto_masked''\<rparr>],
        masked_content = ''[EMAIL_001] [IP_ADDRESS_001]'', original_text = ''a@b.cd 1.2.3.4'',
        questionable_entities = [], residual_entities = []\<rparr>"
  by code_simp

subsection \<open>C1: no two found entities overlap\<close>

text \<open>
  Claim C1. Every call of \<^verbatim>\<open>detect_pii\<close> returns, whatever the text, the configuration
  and the model backends are, and no two entities at distinct places of the returned
  \<^verbatim>\<open>entities_found\<close> have overlapping half-open ranges: for two such entities \<open>a\<close> and
  \<open>b\<close>, \<open>a.start_pos \<ge> b.end_pos\<close> or \<open>b.start_pos \<ge> a.end_pos\<close>.
\<close>

theorem detect_pii_no_overlap:
  "\<exists>r. detect_pii eng cfg text = Inr r \<and>
     (\<forall>i < length (entities_found r). \<forall>j < length (entities_found r). i \<noteq> j \<longrightarrow>
        start_pos (entities_found r ! i) \<ge> end_pos (entities_found r ! j)
        \<or> start_pos (entities_found r ! j) \<ge> end_pos (entities_found r ! i))"
proof -
  let ?found = "snd (mask_text cfg text (fst (mark_questionable_entities cfg
       (fuse_and_resolve_entities (detect_rule_based text) (detect_ml eng text)))))"
  have "apart (?found ! i) (?found ! j)" if "i < length ?found" "j < length ?found" "i \<noteq> j" for i j
  proof (cases "i < j")
    case True
    with that found_apart show ?thesis by (simp add: sorted_wrt_iff_nth_less)
  next
    case False
    with that have "j < i" by simp
    with that found_apart have "apart (?found ! j) (?found ! i)"
      by (simp add: sorted_wrt_iff_nth_less)
    then show ?thesis by (rule apart_sym)
  qed
  then show ?thesis
    by (simp add: detect_pii_eq Let_def apart_iff)
qed


theorem detect_pii_no_overlap_witness:
  "(0::nat) < length (entities_found (projr (detect_pii rule_only default_config ''a@b.cd 1.2.3.4'')))
   \<and> (1::nat) < length (entities_found (projr (detect_pii rule_only default_config ''a@b.cd 1.2.3.4'')))
   \<and> (0::nat) \<noteq> 1
   \<and> (start_pos (entities_found (projr (detect_pii rule_only default_config ''a@b.cd 1.2.3.4'')) ! 0)
        \<ge> end_pos (entities_found (projr (detect_pii rule_only default_config ''a@b.cd 1.2.3.4'')) ! 1)
      \<or> start_pos (entities_found (projr (detect_pii rule_only default_config ''a@b.cd 1.2.3.4'')) ! 1)
        \<ge> end_pos (entities_found (projr (detect_pii rule_only default_config ''a@b.cd 1.2.3.4'')) ! 0))"
proof -
  from detect_pii_no_overlap[of rule_only default_config "''a@b.cd 1.2.3.4''"]
  obtain r where r: "detect_pii rule_only default_config ''a@b.cd 1.2.3.4'' = Inr r"
    and ap: "\<forall>i < length (entities_found r). \<forall>j < length (entities_found r). i \<noteq> j \<longrightarrow>
        start_pos (entities_found r ! i) \<ge> end_pos (entities_found r ! j)
        \<or> start_pos (entities_found r ! j) \<ge> end_pos (entities_found r ! i)"
    by blast
  from r have len: "length (entities_found r) = 2"
    by (auto simp: small_run)
  from ap len have "start_pos (entities_found r ! 0) \<ge> end_pos (entities_found r ! 1)
        \<or> start_pos (entities_found r ! 1) \<ge> end_pos (entities_found r ! 0)"
    by simp
  with r len show ?thesis by simp
qed

subsection \<open>C2: what masking leaves of a value\<close>

lemma mask_loop_spliced:
  "desc_chain b es \<Longrightarrow> b \<le> int (length text) \<Longrightarrow>
   mask_loop cfg es (take (nat b) text @ suffix) token_counter
     = spliced_spec text b (zip es (assign_masks_spec cfg es token_counter)) @ suffix"
proof (induction es arbitrary: b suffix token_counter)
  case Nil
  then show ?case by simp
next
  case (Cons e es)
  from Cons.prems have r: "0 \<le> start_pos e" "start_pos e < end_pos e" "end_pos e \<le> b"
    and ch: "desc_chain (start_pos e) es" and b: "b \<le> int (length text)"
    by simp_all
  let ?tc = "bump token_counter (entity_type e)"
  let ?m = "mask_of cfg e (count_of ?tc (entity_type e))"
  let ?seg = "take (nat b - nat (end_pos e)) (drop (nat (end_pos e)) text)"
  have le: "nat (start_pos e) \<le> nat b" "nat (end_pos e) \<le> nat b" "nat b \<le> length text"
    using r b by simp_all
  have "take (nat (start_pos e)) (take (nat b) text @ suffix)
          = take (nat (start_pos e)) (take (nat b) text)"
    using le by simp
  also have "\<dots> = take (nat (start_pos e)) text"
    using le by (simp add: min_absorb1)
  finally have before: "slice_to (take (nat b) text @ suffix) (start_pos e)
                      = take (nat (start_pos e)) text"
    using r by (simp add: slice_to_def)
  have "drop (nat (end_pos e)) (take (nat b) text @ suffix)
          = drop (nat (end_pos e)) (take (nat b) text) @ suffix"
    using le by simp
  also have "\<dots> = ?seg @ suffix"
    by (simp add: drop_take)
  finally have after: "slice_from (take (nat b) text @ suffix) (end_pos e) = ?seg @ suffix"
    using r by (simp add: slice_from_def)
  have "mask_loop cfg (e # es) (take (nat b) text @ suffix) token_counter
          = mask_loop cfg es (take (nat (start_pos e)) text @ (?m @ ?seg @ suffix)) ?tc"
    by (simp add: Let_def before after)
  also have "\<dots> = spliced_spec text (start_pos e) (zip es (assign_masks_spec cfg es ?tc))
                     @ (?m @ ?seg @ suffix)"
    using ch r b by (intro Cons.IH) simp_all
  finally show ?case by simp
qed

lemma desc_chain_sorted:
  "sorted_wrt (\<lambda>a b. start_pos a \<ge> start_pos b) es \<Longrightarrow> sorted_wrt apart es
   \<Longrightarrow> \<forall>e\<in>set es. 0 \<le> start_pos e \<and> start_pos e < end_pos e \<and> end_pos e \<le> b
   \<Longrightarrow> desc_chain b es"
proof (induction es arbitrary: b)
  case Nil
  then show ?case by simp
next
  case (Cons e es)
  have "end_pos x \<le> start_pos e" if "x \<in> set es" for x
  proof -
    from Cons.prems that have "start_pos x \<le> start_pos e" "apart e x"
      "start_pos e < end_pos e" by auto
    then show ?thesis by (auto simp: apart_iff)
  qed
  with Cons.prems have "\<forall>x\<in>set es. 0 \<le> start_pos x \<and> start_pos x < end_pos x
      \<and> end_pos x \<le> start_pos e"
    by auto
  with Cons.prems Cons.IH[of "start_pos e"] show ?case by simp
qed

lemma deberta_name_run:
  "detect_pii deberta_engine default_config ''NAME'' =
     Inr \<lparr>entities_found =
        [\<lparr>entity_type = ''POTENTIAL_NAME'', value = ''NAME'', start_pos = 0, end_pos = 4,
          confidence = 3 / 10, detection_method = ''base_deberta_heuristic'',
          status = ''auto_masked''\<rparr>],
        masked_content = ''[POTENTIAL_NAME_001]'', original_text = ''NAME'',
        questionable_entities = [], residual_entities = []\<rparr>"
  by code_simp

text \<open>
  Claim C2 says that the text which replaces an entity in \<^verbatim>\<open>masked_content\<close> never contains
  the entity's value. The replacement is the token \<open>[TYPE_###]\<close>, which spells the type of
  the entity: the DeBERTa heuristic finds the word \<open>NAME\<close> as a \<open>POTENTIAL_NAME\<close>, and the
  token that replaces it contains it.
\<close>

theorem masking_completeness_counterexample:
  "map value (entities_found (projr (detect_pii deberta_engine default_config ''NAME'')))
     = [''NAME'']
   \<and> masked_content (projr (detect_pii deberta_engine default_config ''NAME''))
       = ''[POTENTIAL_NAME_001]''
   \<and> contains (masked_content (projr (detect_pii deberta_engine default_config ''NAME'')))
        ''NAME''"
  by (simp add: deberta_name_run) (simp add: contains_def find_def startswith_def)

text \<open>
  Claim C2, amended. \<^verbatim>\<open>detect_pii\<close> always returns; when every entity of
  \<^verbatim>\<open>entities_found\<close> has a span that is not empty and lies inside the text,
  \<^verbatim>\<open>masked_content\<close> is the text in which the span of each of these entities is replaced
  by the entity's mask and nothing else is changed. What stands for an entity in
  \<^verbatim>\<open>masked_content\<close> is its mask, so its value is still there only if the mask itself
  contains it.
\<close>

theorem masked_content_spliced:
  "\<exists>r. detect_pii eng cfg text = Inr r \<and>
     (list_all (\<lambda>e. 0 \<le> start_pos e \<and> start_pos e < end_pos e \<and> end_pos e \<le> int (length text))
        (entities_found r) \<longrightarrow>
      masked_content r =
        spliced_spec text (int (length text))
          (zip (entities_found r) (assign_masks_spec cfg (entities_found r) Map.empty)))"
proof -
  let ?tri = "mark_questionable_entities cfg
                (fuse_and_resolve_entities (detect_rule_based text) (detect_ml eng text))"
  let ?m = "mask_text cfg text (fst ?tri)"
  have "fst ?m = spliced_spec text (int (length text))
                   (zip (snd ?m) (assign_masks_spec cfg (snd ?m) Map.empty))"
    if ok: "list_all (\<lambda>e. 0 \<le> start_pos e \<and> start_pos e < end_pos e
                           \<and> end_pos e \<le> int (length text)) (snd ?m)"
  proof -
    have "desc_chain (int (length text)) (snd ?m)"
      using ok mask_text_descending found_apart
      by (intro desc_chain_sorted) (simp_all add: list_all_iff)
    from mask_loop_spliced[OF this, of "text" cfg "[]" Map.empty]
    have "mask_loop cfg (snd ?m) text Map.empty
            = spliced_spec text (int (length text))
                (zip (snd ?m) (assign_masks_spec cfg (snd ?m) Map.empty))"
      by simp
    then show ?thesis
      by (cases "fst ?tri = []") (simp_all add: mask_text_def Let_def)
  qed
  then show ?thesis by (simp add: detect_pii_eq Let_def)
qed

theorem masked_content_spliced_witness:
  "list_all (\<lambda>e. 0 \<le> start_pos e \<and> start_pos e < end_pos e
                  \<and> end_pos e \<le> int (length ''a@b.cd 1.2.3.4''))
     (entities_found (projr (detect_pii rule_only default_config ''a@b.cd 1.2.3.4'')))
   \<and> spliced_spec ''a@b.cd 1.2.3.4'' (int (length ''a@b.cd 1.2.3.4''))
        (zip (entities_found (projr (detect_pii rule_only default_config ''a@b.cd 1.2.3.4'')))
           (assign_masks_spec default_config
              (entities_found (projr (detect_pii rule_only default_config ''a@b.cd 1.2.3.4'')))
              Map.empty))
       = ''[EMAIL_001] [IP_ADDRESS_001]''
   \<and> masked_content (projr (detect_pii rule_only default_config ''a@b.cd 1.2.3.4''))
       = ''[EMAIL_001] [IP_ADDRESS_001]''"
proof -
  from masked_content_spliced[of rule_only default_config "''a@b.cd 1.2.3.4''"]
  obtain r where r: "detect_pii rule_only default_config ''a@b.cd 1.2.3.4'' = Inr r"
    and sp: "list_all (\<lambda>e. 0 \<le> start_pos e \<and> start_pos e < end_pos e
                           \<and> end_pos e \<le> int (length ''a@b.cd 1.2.3.4'')) (entities_found r) \<longrightarrow>
      masked_content r =
        spliced_spec ''a@b.cd 1.2.3.4'' (int (length ''a@b.cd 1.2.3.4''))
          (zip (entities_found r) (assign_masks_spec default_config (entities_found r) Map.empty))"
    by blast
  from r have ok: "list_all (\<lambda>e. 0 \<le> start_pos e \<and> start_pos e < end_pos e
                           \<and> end_pos e \<le> int (length ''a@b.cd 1.2.3.4'')) (entities_found r)"
    and mc: "masked_content r = ''[EMAIL_001] [IP_ADDRESS_001]''"
    by (auto simp: small_run)
  from sp ok mc r show ?thesis by simp
qed

subsection \<open>C3: the order of the found entities\<close>

text \<open>
  Claim C3 says that \<^verbatim>\<open>entities_found\<close>, as \<^verbatim>\<open>detect_pii\<close> hands it to its callers, is
  sorted ascending by \<^verbatim>\<open>start_pos\<close>. The list is the one \<^verbatim>\<open>_mask_text\<close> has sorted in
  place, descending: on a text with an e-mail address before an IPv4 address the
  returned starts are 7 and 0.
\<close>

theorem entities_found_ascending_counterexample:
  "map start_pos (entities_found (projr (detect_pii rule_only default_config ''a@b.cd 1.2.3.4'')))
     = [7, 0]
   \<and> \<not> sorted (map start_pos
          (entities_found (projr (detect_pii rule_only default_config ''a@b.cd 1.2.3.4''))))"
  by (simp add: small_run)

text \<open>
  Claim C3, amended. Every call of \<^verbatim>\<open>detect_pii\<close> returns, and the returned
  \<^verbatim>\<open>entities_found\<close> is sorted descending by \<^verbatim>\<open>start_pos\<close>, the order in which the
  masking step has left it.
\<close>

theorem entities_found_descending:
  "\<exists>r. detect_pii eng cfg text = Inr r
       \<and> sorted_wrt (\<lambda>a b. start_pos a \<ge> start_pos b) (entities_found r)"
  by (simp add: detect_pii_eq Let_def mask_text_descending)

subsection \<open>C4: the fusion step\<close>

lemma scan_resolved_contend:
  "\<forall>y\<in>set pre. \<not> overlaps e y \<Longrightarrow>
   (case scan_resolved e (pre @ rest) rest of (r, ov) \<Rightarrow> if \<not> ov then r @ [e] else r)
     = pre @ contend_spec e rest"
proof (induction rest arbitrary: pre)
  case Nil
  then show ?case by simp
next
  case (Cons x rest)
  show ?case
  proof (cases "overlaps e x")
    case True
    have "x \<notin> set pre" using Cons.prems True by auto
    then have "remove1 x (pre @ x # rest) = pre @ rest"
      by (simp add: remove1_append)
    with True show ?thesis by (auto simp: wins_spec_def)
  next
    case False
    with Cons.prems have "\<forall>y\<in>set (pre @ [x]). \<not> overlaps e y" by simp
    from Cons.IH[OF this] False show ?thesis by simp
  qed
qed

lemma resolve_entity_contend: "resolve_entity resolved e = contend_spec e resolved"
  using scan_resolved_contend[of "[]" e resolved] by (simp add: resolve_entity_def)

text \<open>
  Claim C4. \<^verbatim>\<open>_fuse_and_resolve_entities\<close> does what the specification describes: it
  takes the concatenated candidates in ascending order of start; each candidate contends
  only with the first resolved entity that overlaps it, wins against it when it is
  rule-based and the existing entity is not, or when both are rule-based and its
  confidence is strictly higher (on a tie the existing entity stays), and is dropped in
  every other case of overlap; a candidate with no overlap is appended.
\<close>

theorem fuse_refines_spec:
  "fuse_and_resolve_entities rule_entities ml_entities = fuse_spec rule_entities ml_entities"
proof -
  have "resolve_entity = (\<lambda>resolved candidate. contend_spec candidate resolved)"
    by (intro ext) (rule resolve_entity_contend)
  then show ?thesis
    by (simp add: fuse_and_resolve_entities_def fuse_spec_def Let_def)
qed

subsection \<open>C5: structured entities get the full token\<close>

lemma upper_structured: "t \<in> structured_entities \<Longrightarrow> upper t = t"
  by (auto simp: structured_entities_def upper_def to_upper_def)

lemma digit_char: "n < 10 \<Longrightarrow> is_digit (''0123456789'' ! n)"
proof -
  assume "n < 10"
  then have "n \<in> {0, 1, 2, 3, 4, 5, 6, 7, 8, 9}" by auto
  then show ?thesis by (auto simp: is_digit_def)
qed

lemma str_of_nat_digits: "list_all is_digit (str_of_nat n)"
proof (induction n rule: str_of_nat.induct)
  case (1 n)
  show ?case
  proof (cases "n < 10")
    case True
    then show ?thesis by (subst str_of_nat.simps) (simp add: digit_char)
  next
    case False
    with 1 show ?thesis by (subst str_of_nat.simps) (simp add: digit_char)
  qed
qed

lemma format_03d_digits: "3 \<le> length (format_03d n) \<and> list_all is_digit (format_03d n)"
proof -
  have "is_digit (CHR ''0'')" by (simp add: is_digit_def)
  then have "list_all is_digit (replicate k (CHR ''0''))" for k
    by (induction k) simp_all
  then show ?thesis
    by (simp add: format_03d_def Let_def str_of_nat_digits)
qed

lemma format_1: "format_03d 1 = ''001''"
  by (simp add: format_03d_def str_of_nat.simps eval_nat_numeral)

lemma format_Suc_0: "format_03d (Suc 0) = ''001''"
  using format_1 by simp

text \<open>
  Claim C5. For an entity whose type is one of EMAIL, CREDIT_CARD, PHONE, IP_ADDRESS, SSN,
  NATIONAL_ID, BANK_ACCT and IP, the mask is the token \<open>[TYPE_###]\<close> (the type, and its
  counter in at least three decimal digits) for every configuration, and this token is
  what the masking loop splices in at the entity's span.
\<close>

theorem structured_full_token:
  "entity_type e \<in> structured_entities \<longrightarrow>
     mask_of cfg e n = ''['' @ entity_type e @ ''_'' @ format_03d n @ '']''
     \<and> 3 \<le> length (format_03d n) \<and> list_all is_digit (format_03d n)
     \<and> mask_loop cfg (e # rest) masked_text token_counter =
         mask_loop cfg rest
           (slice_to masked_text (start_pos e)
              @ ''['' @ entity_type e @ ''_''
              @ format_03d (count_of (bump token_counter (entity_type e)) (entity_type e)) @ '']''
              @ slice_from masked_text (end_pos e))
           (bump token_counter (entity_type e))"
  by (simp add: mask_of_def token_def upper_structured Let_def format_03d_digits)

text \<open>With \<^verbatim>\<open>mask_format = PARTIAL_REVEAL\<close> an e-mail address becomes \<open>[EMAIL_001]\<close>.\<close>

theorem structured_full_token_witness:
  "entity_type email_entity \<in> structured_entities
   \<and> mask_of partial_reveal_config email_entity 1 = ''[EMAIL_001]''
   \<and> fst (mask_text partial_reveal_config ''write to a@b.cd today'' [email_entity])
       = ''write to [EMAIL_001] today''"
proof -
  have h: "entity_type email_entity \<in> structured_entities"
    by (simp add: email_entity_def structured_entities_def)
  from structured_full_token[of email_entity partial_reveal_config _ "[]" _ Map.empty] h
  have t: "mask_of partial_reveal_config email_entity n
             = ''['' @ entity_type email_entity @ ''_'' @ format_03d n @ '']''"
    and l: "mask_loop partial_reveal_config [email_entity] mt Map.empty =
         slice_to mt (start_pos email_entity)
              @ ''['' @ entity_type email_entity @ ''_''
              @ format_03d (count_of (bump Map.empty (entity_type email_entity))
                              (entity_type email_entity)) @ '']''
              @ slice_from mt (end_pos email_entity)" for n mt
    by simp_all
  have "fst (mask_text partial_reveal_config ''write to a@b.cd today'' [email_entity])
          = mask_loop partial_reveal_config [email_entity] ''write to a@b.cd today'' Map.empty"
    by (simp add: mask_text_def)
  also have "\<dots> = ''write to [EMAIL_001] today''"
    unfolding l by (simp add: email_entity_def bump_def count_of_def format_Suc_0
                              slice_to_def slice_from_def)
  finally show ?thesis
    using h t[of 1] by (simp add: email_entity_def format_1 format_Suc_0)
qed

subsection \<open>C6: the credit card validator\<close>







subsection \<open>C7: the end-to-end scenario\<close>

text \<open>
  Claim C7. On the text of the scenario, without a model backend, \<^verbatim>\<open>detect_pii\<close> finds
  three entities, an e-mail address, a phone number and a social security number, and
  no residual entity. The phone number it finds is \<open>555) 123-4567\<close>, without the opening
  parenthesis, which \<^verbatim>\<open>\b\<close> keeps out of the match: the masked text has \<open>([PHONE_001]\<close>
  where the claim expects \<open>[PHONE_001]\<close>.
\<close>

theorem end_to_end_scenario:
  "detect_pii rule_only default_config
     ''Contact John Smith at john.smith@email.com or (555) 123-4567, SSN 123-45-6789.'' =
     Inr \<lparr>entities_found =
        [\<lparr>entity_type = ''SSN'', value = ''123-45-6789'', start_pos = 66, end_pos = 77,
          confidence = 1, detection_method = ''rule_based'', status = ''auto_masked''\<rparr>,
         \<lparr>entity_type = ''PHONE'', value = ''555) 123-4567'', start_pos = 47, end_pos = 60,
          confidence = 1, detection_method = ''rule_based'', status = ''auto_masked''\<rparr>,
         \<lparr>entity_type = ''EMAIL'', value = ''john.smith@email.com'', start_pos = 22,
          end_pos = 42, confidence = 1, detection_method = ''rule_based'',
          status = ''auto_masked''\<rparr>],
        masked_content = ''Contact John Smith at [EMAIL_001] or ([PHONE_001], SSN [SSN_001].'',
        original_text =
          ''Contact John Smith at john.smith@email.com or (555) 123-4567, SSN 123-45-6789.'',
        questionable_entities = [], residual_entities = []\<rparr>"
  by code_simp

subsection \<open>C8: confidence triage\<close>

lemma triage_returned:
  "snd (mark_questionable_entities cfg es) =
     map (\<lambda>e. e\<lparr>status := ''questionable''\<rparr>)
       (filter (\<lambda>e. min_confidence cfg \<le> confidence e
                    \<and> confidence e \<le> snd (questionable_band cfg)) es)"
  by (induction es) (auto simp: mark_questionable_entities_def Let_def in_band_def)

lemma triage_subset:
  "set (snd (mark_questionable_entities cfg es)) \<subseteq> set (fst (mark_questionable_entities cfg es))"
  by (auto simp: mark_questionable_entities_def Let_def)

lemma triage_keeps:
  "map (\<lambda>e. e\<lparr>status := s\<rparr>) (fst (mark_questionable_entities cfg es)) = map (\<lambda>e. e\<lparr>status := s\<rparr>) es"
  by (induction es) (auto simp: mark_questionable_entities_def Let_def)

lemma set_mask_text: "set (snd (mask_text cfg text es)) = set es"
  by (simp add: mask_text_def Let_def)

lemma mset_mask_text: "mset (snd (mask_text cfg text es)) = mset es"
  by (simp add: mask_text_def Let_def)

lemma insort_key_map_same:
  "(\<And>x. k (g x) = k x) \<Longrightarrow> insort_key k (g x) (map g xs) = map g (insort_key k x xs)"
  by (induction xs) auto

lemma sort_key_map_same:
  "(\<And>x. k (g x) = k x) \<Longrightarrow> sort_key k (map g xs) = map g (sort_key k xs)"
proof (induction xs)
  case Nil
  then show ?case by simp
next
  case (Cons a xs)
  have "sort_key k (map g (a # xs)) = insort_key k (g a) (sort_key k (map g xs))"
    by (simp add: sort_key_def)
  also have "\<dots> = insort_key k (g a) (map g (sort_key k xs))"
    using Cons by simp
  also have "\<dots> = map g (insort_key k a (sort_key k xs))"
    using Cons.prems by (rule insort_key_map_same)
  finally show ?case by (simp add: sort_key_def)
qed

lemma mask_of_status: "mask_of cfg (e\<lparr>status := s\<rparr>) n = mask_of cfg e n"
  by (simp add: mask_of_def)

lemma mask_loop_status:
  "mask_loop cfg (map (\<lambda>e. if p e then e\<lparr>status := s\<rparr> else e) es) mtext tc = mask_loop cfg es mtext tc"
  by (induction es arbitrary: mtext tc) (auto simp: Let_def mask_of_status)

lemma mask_text_triage:
  "fst (mask_text cfg text (fst (mark_questionable_entities cfg es))) = fst (mask_text cfg text es)"
proof -
  let ?g = "\<lambda>e. if in_band cfg e then e\<lparr>status := ''questionable''\<rparr> else e"
  have "sort_key (\<lambda>x. - start_pos x) (map ?g es) = map ?g (sort_key (\<lambda>x. - start_pos x) es)"
    by (rule sort_key_map_same) simp
  then show ?thesis
    by (simp add: mask_text_def mark_questionable_entities_def Let_def mask_loop_status)
qed

text \<open>
  Claim C8. Triage returns exactly the resolved entities whose confidence lies between
  \<^verbatim>\<open>min_confidence\<close> and the upper bound of the band (0.35 and 0.65 by default), each
  with the status \<open>questionable\<close>; every returned entity is in \<^verbatim>\<open>entities_found\<close>;
  \<^verbatim>\<open>entities_found\<close> holds the resolved entities, all of them, up to their status and
  their order; and the masked text is the one masking gives without triage.
\<close>

theorem triage_labels_only:
  "min_confidence default_config = 35 / 100 \<and> snd (questionable_band default_config) = 65 / 100 \<and>
   (\<exists>r. detect_pii eng cfg text = Inr r \<and>
     questionable_entities r =
       map (\<lambda>e. e\<lparr>status := ''questionable''\<rparr>)
         (filter (\<lambda>e. min_confidence cfg \<le> confidence e
                      \<and> confidence e \<le> snd (questionable_band cfg))
            (fuse_and_resolve_entities (detect_rule_based text) (detect_ml eng text)))
     \<and> set (questionable_entities r) \<subseteq> set (entities_found r)
     \<and> mset (map (\<lambda>e. e\<lparr>status := ''auto_masked''\<rparr>) (entities_found r)) =
        mset (map (\<lambda>e. e\<lparr>status := ''auto_masked''\<rparr>)
               (fuse_and_resolve_entities (detect_rule_based text) (detect_ml eng text)))
     \<and> masked_content r =
        fst (mask_text cfg text
               (fuse_and_resolve_entities (detect_rule_based text) (detect_ml eng text))))"
proof -
  let ?res = "fuse_and_resolve_entities (detect_rule_based text) (detect_ml eng text)"
  let ?tri = "mark_questionable_entities cfg ?res"
  have a: "set (snd ?tri) \<subseteq> set (snd (mask_text cfg text (fst ?tri)))"
    using triage_subset by (simp add: set_mask_text)
  have "mset (map (\<lambda>e. e\<lparr>status := ''auto_masked''\<rparr>) (snd (mask_text cfg text (fst ?tri))))
        = image_mset (\<lambda>e. e\<lparr>status := ''auto_masked''\<rparr>) (mset (fst ?tri))"
    by (simp add: mset_mask_text)
  also have "\<dots> = mset (map (\<lambda>e. e\<lparr>status := ''auto_masked''\<rparr>) (fst ?tri))" by simp
  also have "\<dots> = mset (map (\<lambda>e. e\<lparr>status := ''auto_masked''\<rparr>) ?res)"
    by (simp only: triage_keeps)
  finally have b: "mset (map (\<lambda>e. e\<lparr>status := ''auto_masked''\<rparr>) (snd (mask_text cfg text (fst ?tri))))
        = mset (map (\<lambda>e. e\<lparr>status := ''auto_masked''\<rparr>) ?res)" .
  show ?thesis
    using a b
    by (simp add: detect_pii_eq Let_def triage_returned mask_text_triage default_config_def)
qed

subsection \<open>C9: which exceptions are caught\<close>

lemma try_backend_unavailable: "unavailable b text \<Longrightarrow> try_backend b text conv = None"
  by (auto simp: unavailable_def try_backend_def isl_def split: option.splits)

lemma deberta_run:
  "detect_ml ner_failing_engine ''Hello Bob'' =
     [\<lparr>entity_type = ''POTENTIAL_NAME'', value = ''Hello'', start_pos = 0, end_pos = 5,
       confidence = 3 / 10, detection_method = ''base_deberta_heuristic'',
       status = ''auto_masked''\<rparr>,
      \<lparr>entity_type = ''POTENTIAL_NAME'', value = ''Bob'', start_pos = 6, end_pos = 9,
       confidence = 3 / 10, detection_method = ''base_deberta_heuristic'',
       status = ''auto_masked''\<rparr>]"
  by code_simp

text \<open>
  Claim C9 says that after an exception of a model backend the model detector
  contributes no entity. \<^verbatim>\<open>_detect_ml\<close> goes on to the backends loaded after the one that
  raised: when the BERT backend raises and the DeBERTa model is loaded, the heuristic of
  the latter runs and contributes its entities.
\<close>

theorem backend_exception_counterexample:
  "unavailable (fallback_ner_model ner_failing_engine) ''Hello Bob''
   \<and> fallback_ner_model ner_failing_engine \<noteq> None
   \<and> map value (detect_ml ner_failing_engine ''Hello Bob'') = [''Hello'', ''Bob'']
   \<and> detect_ml ner_failing_engine ''Hello Bob'' \<noteq> []"
  by (simp add: deberta_run) (simp add: ner_failing_engine_def unavailable_def raising_def)

text \<open>
  Claim C9, amended. An exception of a model backend never leaves \<^verbatim>\<open>detect_pii\<close>: the call
  returns. A backend that raises counts as one that did not load: \<^verbatim>\<open>_detect_ml\<close> goes on
  to the backends after it. When every backend that can raise is unavailable (not
  loaded, or raising on the text), the model detector contributes what the DeBERTa
  heuristic finds if that model is loaded, and nothing otherwise, in which case the
  result is the one of the engine without any backend. An exception of the pattern
  detector, of fusion or of masking is the outcome of \<^verbatim>\<open>detect_pii\<close>.
\<close>

theorem model_errors_caught:
  "(\<exists>r. detect_pii eng cfg text = Inr r)
   \<and> (unavailable (longtransformer_detector eng) text \<longrightarrow>
          detect_ml eng text = detect_ml (eng\<lparr>longtransformer_detector := None\<rparr>) text)
   \<and> (unavailable (ml_detector eng) text \<longrightarrow>
          detect_ml eng text = detect_ml (eng\<lparr>ml_detector := None\<rparr>) text)
   \<and> (unavailable (fallback_ner_model eng) text \<longrightarrow>
          detect_ml eng text = detect_ml (eng\<lparr>fallback_ner_model := None\<rparr>) text)
   \<and> (unavailable (longtransformer_detector eng) text \<and> unavailable (ml_detector eng) text
        \<and> unavailable (fallback_ner_model eng) text \<longrightarrow>
          detect_ml eng text = (if base_deberta eng then detect_with_base_deberta text else []))
   \<and> (unavailable (longtransformer_detector eng) text \<and> unavailable (ml_detector eng) text
        \<and> unavailable (fallback_ner_model eng) text \<and> \<not> base_deberta eng \<longrightarrow>
          detect_ml eng text = [] \<and> detect_pii eng cfg text = detect_pii rule_only cfg text)
   \<and> (m_detect_rule_based p text = Inl e \<longrightarrow> detect_pii_with p text = Inl e)
   \<and> (m_detect_rule_based f text = Inr rule_entities \<and> m_detect_ml f text = Inr ml_entities
        \<and> m_fuse_and_resolve_entities f rule_entities ml_entities = Inl e \<longrightarrow>
          detect_pii_with f text = Inl e)
   \<and> (m_detect_rule_based k text = Inr rule_entities' \<and> m_detect_ml k text = Inr ml_entities'
        \<and> m_fuse_and_resolve_entities k rule_entities' ml_entities' = Inr all_entities
        \<and> m_mark_questionable_entities k all_entities = Inr (marked, questionable)
        \<and> m_mask_text k text marked = Inl e \<longrightarrow>
          detect_pii_with k text = Inl e)"
proof -
  have none: "try_backend None text conv = None" for conv :: "'a \<Rightarrow> PIIEntity list"
    by (simp add: try_backend_def)
  have c1: "detect_ml eng text = detect_ml (eng\<lparr>longtransformer_detector := None\<rparr>) text"
    if "unavailable (longtransformer_detector eng) text"
    using that by (simp add: detect_ml_def try_backend_unavailable none split: option.splits)
  have c2: "detect_ml eng text = detect_ml (eng\<lparr>ml_detector := None\<rparr>) text"
    if "unavailable (ml_detector eng) text"
    using that by (simp add: detect_ml_def try_backend_unavailable none split: option.splits)
  have c3: "detect_ml eng text = detect_ml (eng\<lparr>fallback_ner_model := None\<rparr>) text"
    if "unavailable (fallback_ner_model eng) text"
    using that by (simp add: detect_ml_def try_backend_unavailable none split: option.splits)
  have ml: "detect_ml eng text = (if base_deberta eng then detect_with_base_deberta text else [])"
    if "unavailable (longtransformer_detector eng) text" "unavailable (ml_detector eng) text"
       "unavailable (fallback_ner_model eng) text"
    using that by (simp add: detect_ml_def try_backend_unavailable)
  have ro: "detect_ml rule_only text = []"
    by (simp add: detect_ml_def rule_only_def try_backend_def)
  have 1: "\<exists>r. detect_pii eng cfg text = Inr r" by (simp add: detect_pii_eq Let_def)
  have 3: "detect_ml eng text = [] \<and> detect_pii eng cfg text = detect_pii rule_only cfg text"
    if "unavailable (longtransformer_detector eng) text" "unavailable (ml_detector eng) text"
       "unavailable (fallback_ner_model eng) text" "\<not> base_deberta eng"
    using ml[OF that(1-3)] that(4) ro by (simp add: detect_pii_eq)
  have 4: "m_detect_rule_based p text = Inl e \<longrightarrow> detect_pii_with p text = Inl e"
    by (simp add: detect_pii_with_def call_def)
  have 5: "m_detect_rule_based f text = Inr rule_entities \<and> m_detect_ml f text = Inr ml_entities
        \<and> m_fuse_and_resolve_entities f rule_entities ml_entities = Inl e \<longrightarrow>
          detect_pii_with f text = Inl e"
    by (simp add: detect_pii_with_def call_def)
  have 6: "m_detect_rule_based k text = Inr rule_entities' \<and> m_detect_ml k text = Inr ml_entities'
        \<and> m_fuse_and_resolve_entities k rule_entities' ml_entities' = Inr all_entities
        \<and> m_mark_questionable_entities k all_entities = Inr (marked, questionable)
        \<and> m_mask_text k text marked = Inl e \<longrightarrow>
          detect_pii_with k text = Inl e"
    by (simp add: detect_pii_with_def call_def)
  show ?thesis
    using 1 c1 c2 c3 ml 3 4 5 6 by blast
qed

theorem model_errors_caught_witness:
  "unavailable (longtransformer_detector longtransformer_failing_engine) ''a@b.cd''
   \<and> longtransformer_detector longtransformer_failing_engine \<noteq> None
   \<and> unavailable (ml_detector longtransformer_failing_engine) ''a@b.cd''
   \<and> unavailable (fallback_ner_model longtransformer_failing_engine) ''a@b.cd''
   \<and> \<not> base_deberta longtransformer_failing_engine
   \<and> detect_ml longtransformer_failing_engine ''a@b.cd''
       = detect_ml (longtransformer_failing_engine\<lparr>longtransformer_detector := None\<rparr>) ''a@b.cd''
   \<and> detect_ml longtransformer_failing_engine ''a@b.cd''
       = detect_ml (longtransformer_failing_engine\<lparr>ml_detector := None\<rparr>) ''a@b.cd''
   \<and> detect_ml longtransformer_failing_engine ''a@b.cd''
       = detect_ml (longtransformer_failing_engine\<lparr>fallback_ner_model := None\<rparr>) ''a@b.cd''
   \<and> detect_ml longtransformer_failing_engine ''a@b.cd'' = []
   \<and> detect_pii longtransformer_failing_engine default_config ''a@b.cd''
       = detect_pii rule_only default_config ''a@b.cd''
   \<and> m_detect_rule_based failing_patterns ''a@b.cd'' = Inl (Raised ''ValueError'')
   \<and> detect_pii_with failing_patterns ''a@b.cd'' = Inl (Raised ''ValueError'')
   \<and> m_fuse_and_resolve_entities failing_fusion [] [] = Inl (Raised ''TypeError'')
   \<and> detect_pii_with failing_fusion ''a@b.cd'' = Inl (Raised ''TypeError'')
   \<and> m_mask_text failing_masking ''a@b.cd'' [] = Inl (Raised ''TypeError'')
   \<and> detect_pii_with failing_masking ''a@b.cd'' = Inl (Raised ''TypeError'')"
proof -
  have u: "unavailable (longtransformer_detector longtransformer_failing_engine) ''a@b.cd''"
    "longtransformer_detector longtransformer_failing_engine \<noteq> None"
    "unavailable (ml_detector longtransformer_failing_engine) ''a@b.cd''"
    "unavailable (fallback_ner_model longtransformer_failing_engine) ''a@b.cd''"
    "\<not> base_deberta longtransformer_failing_engine"
    by (simp_all add: longtransformer_failing_engine_def rule_only_def unavailable_def raising_def)
  have p: "m_detect_rule_based failing_patterns ''a@b.cd'' = Inl (Raised ''ValueError'')"
    by (simp add: failing_patterns_def)
  have f: "m_detect_rule_based failing_fusion ''a@b.cd'' = Inr []"
    "m_detect_ml failing_fusion ''a@b.cd'' = Inr []"
    "m_fuse_and_resolve_entities failing_fusion [] [] = Inl (Raised ''TypeError'')"
    by (simp_all add: failing_fusion_def quiet_methods_def)
  have k: "m_detect_rule_based failing_masking ''a@b.cd'' = Inr []"
    "m_detect_ml failing_masking ''a@b.cd'' = Inr []"
    "m_fuse_and_resolve_entities failing_masking [] [] = Inr []"
    "m_mark_questionable_entities failing_masking [] = Inr ([], [])"
    "m_mask_text failing_masking ''a@b.cd'' [] = Inl (Raised ''TypeError'')"
    by (simp_all add: failing_masking_def quiet_methods_def)
  from model_errors_caught[of longtransformer_failing_engine default_config "''a@b.cd''"
         failing_patterns "Raised ''ValueError''" failing_fusion "[]" "[]"
         failing_masking "[]" "[]" "[]" "[]" "[]"] u p
  have m: "detect_ml longtransformer_failing_engine ''a@b.cd''
       = detect_ml (longtransformer_failing_engine\<lparr>longtransformer_detector := None\<rparr>) ''a@b.cd''"
    "detect_ml longtransformer_failing_engine ''a@b.cd''
       = detect_ml (longtransformer_failing_engine\<lparr>ml_detector := None\<rparr>) ''a@b.cd''"
    "detect_ml longtransformer_failing_engine ''a@b.cd''
       = detect_ml (longtransformer_failing_engine\<lparr>fallback_ner_model := None\<rparr>) ''a@b.cd''"
    "detect_ml longtransformer_failing_engine ''a@b.cd'' = []"
    "detect_pii longtransformer_failing_engine default_config ''a@b.cd''
       = detect_pii rule_only default_config ''a@b.cd''"
    "detect_pii_with failing_patterns ''a@b.cd'' = Inl (Raised ''ValueError'')"
    by blast+
  from model_errors_caught[of longtransformer_failing_engine default_config "''a@b.cd''"
         failing_patterns "Raised ''TypeError''" failing_fusion "[]" "[]"
         failing_masking "[]" "[]" "[]" "[]" "[]"] f k
  have n: "detect_pii_with failing_fusion ''a@b.cd'' = Inl (Raised ''TypeError'')"
    "detect_pii_with failing_masking ''a@b.cd'' = Inl (Raised ''TypeError'')"
    by blast+
  from u p f k m n show ?thesis by blast
qed

subsection \<open>C10: the result keeps the raw input\<close>

text \<open>
  Claim C10. Every call of \<^verbatim>\<open>detect_pii\<close> returns a result whose \<^verbatim>\<open>original_text\<close> is the
  input text, character for character, next to \<^verbatim>\<open>masked_content\<close>.
\<close>

theorem detect_pii_original_text:
  "\<exists>r. detect_pii eng cfg text = Inr r \<and> original_text r = text"
  by (simp add: detect_pii_eq Let_def)

end
